theory Spec2Isabelle
  imports Main "HOL-Library.Multiset"
begin

section \<open>Handwritten notes to digital notes: the transcription pipeline of main.py\<close>

text \<open>
  The development embeds the functions of \<^verbatim>\<open>main.py\<close> that make up the pipeline:
  \<^verbatim>\<open>get_gemini_response\<close>, \<^verbatim>\<open>get_custom_prompt\<close>, \<^verbatim>\<open>md_to_latex\<close>,
  \<^verbatim>\<open>process_file\<close>, \<^verbatim>\<open>generate_character_frequency\<close> and the part of the script that
  calls them and fills the download button.

  The external collaborators are parameters of the model: the recognition service
  (\<^verbatim>\<open>model.generate_content\<close>), the markup transform (\<^verbatim>\<open>pypandoc.convert_text\<close>), the
  order in which the thread pool finishes its work items, and the index permutation
  that the data frame library computes for \<^verbatim>\<open>sort_values\<close>.
\<close>

subsection \<open>Python primitives\<close>

text \<open>
  \<^verbatim>\<open>sep.join(xs)\<close>: the items in order, with the separator between consecutive items and
  nowhere else.
\<close>

fun join :: "string \<Rightarrow> string list \<Rightarrow> string" where
  "join sep [] = []"
| "join sep [x] = x"
| "join sep (x # y # ys) = x @ sep @ join sep (y # ys)"

text \<open>
  A \<^verbatim>\<open>dict\<close> keeps its keys in insertion order, so it is an association list:
  \<^verbatim>\<open>d.get(k, default)\<close> reads it, \<^verbatim>\<open>d[k] = v\<close> overwrites the value of a key in place or
  appends a new key at the end.
\<close>

fun dict_get :: "('k \<times> 'v) list \<Rightarrow> 'k \<Rightarrow> 'v \<Rightarrow> 'v" where
  "dict_get [] k d = d"
| "dict_get ((k', v) # kvs) k d = (if k' = k then v else dict_get kvs k d)"

fun dict_set :: "('k \<times> 'v) list \<Rightarrow> 'k \<Rightarrow> 'v \<Rightarrow> ('k \<times> 'v) list" where
  "dict_set [] k v = [(k, v)]"
| "dict_set ((k', v') # kvs) k v =
     (if k' = k then (k, v) # kvs else (k', v') # dict_set kvs k v)"

text \<open>
  Characters are code points; the type \<^typ>\<open>char\<close> holds the code points 0 to 255, and
  the four predicates below are those of Python's \<^verbatim>\<open>str\<close> on that range.
  \<^verbatim>\<open>c.isalnum()\<close> is true when one of \<^verbatim>\<open>c.isalpha()\<close>, \<^verbatim>\<open>c.isdecimal()\<close>,
  \<^verbatim>\<open>c.isdigit()\<close>, \<^verbatim>\<open>c.isnumeric()\<close> is.
\<close>

definition in_range :: "nat \<Rightarrow> nat \<Rightarrow> char \<Rightarrow> bool" where
  "in_range lo hi c = (lo \<le> of_char c \<and> (of_char c :: nat) \<le> hi)"

definition isalpha :: "char \<Rightarrow> bool" where
  "isalpha c =
     (in_range 0x41 0x5A c \<or> in_range 0x61 0x7A c \<or> in_range 0xAA 0xAA c \<or>
      in_range 0xB5 0xB5 c \<or> in_range 0xBA 0xBA c \<or> in_range 0xC0 0xD6 c \<or>
      in_range 0xD8 0xF6 c \<or> in_range 0xF8 0xFF c)"

definition isdecimal :: "char \<Rightarrow> bool" where
  "isdecimal c = in_range 0x30 0x39 c"

definition isdigit :: "char \<Rightarrow> bool" where
  "isdigit c = (in_range 0x30 0x39 c \<or> in_range 0xB2 0xB3 c \<or> in_range 0xB9 0xB9 c)"

definition isnumeric :: "char \<Rightarrow> bool" where
  "isnumeric c =
     (in_range 0x30 0x39 c \<or> in_range 0xB2 0xB3 c \<or> in_range 0xB9 0xB9 c \<or>
      in_range 0xBC 0xBE c)"

definition isalnum :: "char \<Rightarrow> bool" where
  "isalnum c = (isalpha c \<or> isdecimal c \<or> isdigit c \<or> isnumeric c)"

subsection \<open>Data\<close>

datatype error = TranscriptionError string | ConversionError string | IndexError

text \<open>The dictionary \<^verbatim>\<open>{"mime_type": "image/png", "data": image_data}\<close>.\<close>

record 'b image_part =
  mime_type :: string
  data :: 'b

text \<open>The keys of \<^verbatim>\<open>st.session_state\<close> that the pipeline reads or writes.\<close>

record 'b session_state =
  plain_text_convert :: bool
  markdown_convert :: bool
  latex_convert :: bool
  images :: "'b list"
  "output" :: string
  format_selected :: string

text \<open>
  The recognition service: \<^verbatim>\<open>model.generate_content([input, part]).text\<close> returns the
  text or raises. The markup transform: \<^verbatim>\<open>pypandoc.convert_text(source, to, format=...)\<close>
  returns the converted text or raises.
\<close>

type_synonym 'b generative_model = "string \<Rightarrow> 'b image_part \<Rightarrow> error + string"

type_synonym pandoc = "string \<Rightarrow> string \<Rightarrow> string \<Rightarrow> error + string"

subsection \<open>The functions of main.py\<close>

definition max_workers :: nat where
  "max_workers = 10"

definition get_gemini_response ::
  "'b generative_model \<Rightarrow> string \<Rightarrow> 'b image_part list \<Rightarrow> error + string" where
  "get_gemini_response model input img =
     (case img of [] \<Rightarrow> Inl IndexError | part # _ \<Rightarrow> model input part)"

definition backslash :: char where
  "backslash = CHR 0x5C"

definition newline :: char where
  "newline = CHR 0x0A"

definition latex_preamble :: string where
  "latex_preamble =
     backslash # ''documentclass[a4paper]{article}'' @ [newline] @
     backslash # ''usepackage[utf8]{inputenc}'' @ [newline] @
     backslash # ''usepackage{geometry}'' @ [newline] @
     backslash # ''geometry{margin=1in}'' @ [newline] @
     backslash # ''title{Digitalized Notes}'' @ [newline] @
     backslash # ''author{}'' @ [newline] @
     backslash # ''date{'' @ backslash # ''today}'' @ [newline] @
     backslash # ''begin{document}'' @ [newline] @
     backslash # ''maketitle'' @ [newline]"

definition latex_postamble :: string where
  "latex_postamble = backslash # ''end{document}''"

definition md_to_latex :: "pandoc \<Rightarrow> string \<Rightarrow> error + string" where
  "md_to_latex convert_text md_content =
     (case convert_text md_content ''latex'' ''md'' of
        Inl e \<Rightarrow> Inl e
      | Inr latex_body \<Rightarrow> Inr (latex_preamble @ latex_body @ latex_postamble))"

definition base_prompt :: string where
  "base_prompt =
     ''You have to transcribe the handwritten notes in the image. The output should be structured '' @
     ''with titles, chapters, paragraphs, and subparagraphs in the specified format.''"

definition get_custom_prompt :: "string \<Rightarrow> string" where
  "get_custom_prompt format = base_prompt @ '' Format: '' @ format @ ''.''"

subsection \<open>The thread pool\<close>

text \<open>
  \<^verbatim>\<open>executor.submit(fn, *args)\<close> creates a future and queues a work item for it; a worker
  that finishes an item stores what the call returned or raised in the item's future.
  Futures are named by the number of their submission. \<^verbatim>\<open>finished\<close> holds the futures
  that are done; \<^verbatim>\<open>work_queue\<close> holds the items that are not.
\<close>

record 'b work_item =
  future_id :: nat
  prompt_arg :: string
  image_arg :: "'b image_part list"

record 'b executor =
  pool_size :: nat
  submitted :: nat
  work_queue :: "'b work_item list"
  finished :: "nat \<rightharpoonup> error + string"

definition ThreadPoolExecutor :: "nat \<Rightarrow> 'b executor" where
  "ThreadPoolExecutor n =
     \<lparr>pool_size = n, submitted = 0, work_queue = [], finished = Map.empty\<rparr>"

definition submit :: "'b executor \<Rightarrow> string \<Rightarrow> 'b image_part list \<Rightarrow> nat \<times> 'b executor" where
  "submit ex input img =
     (submitted ex,
      ex\<lparr>submitted := Suc (submitted ex),
         work_queue := work_queue ex @
           [\<lparr>future_id = submitted ex, prompt_arg = input, image_arg = img\<rparr>]\<rparr>)"

text \<open>A worker finishes the item of future \<open>fid\<close>, if it is still queued.\<close>

definition complete :: "'b generative_model \<Rightarrow> 'b executor \<Rightarrow> nat \<Rightarrow> 'b executor" where
  "complete model ex fid =
     (case find (\<lambda>w. future_id w = fid) (work_queue ex) of
        None \<Rightarrow> ex
      | Some w \<Rightarrow>
          ex\<lparr>work_queue := filter (\<lambda>w. future_id w \<noteq> fid) (work_queue ex),
             finished := (finished ex)
               (fid \<mapsto> get_gemini_response model (prompt_arg w) (image_arg w))\<rparr>)"

text \<open>
  The workers finish items in the order \<open>schedule\<close>, a list of future ids; ids that are
  not queued any more are skipped. The loop that submits the pages reads no future, so
  it makes no difference to it whether an item is finished during the loop or after it:
  the workers run after the loop.
\<close>

definition run_workers :: "'b generative_model \<Rightarrow> nat list \<Rightarrow> 'b executor \<Rightarrow> 'b executor" where
  "run_workers model schedule ex = foldl (complete model) ex schedule"

text \<open>
  Leaving the \<^verbatim>\<open>with\<close> block calls \<^verbatim>\<open>shutdown(wait=True)\<close>: it returns when every item
  still queued has been finished.
\<close>

definition shutdown :: "'b generative_model \<Rightarrow> 'b executor \<Rightarrow> 'b executor" where
  "shutdown model ex = run_workers model (map future_id (work_queue ex)) ex"

text \<open>
  \<^verbatim>\<open>future.result()\<close> returns or re-raises the outcome of a finished future and blocks
  on one that is not finished: \<open>None\<close>.
\<close>

definition result :: "'b executor \<Rightarrow> nat \<Rightarrow> (error + string) option" where
  "result ex fid = finished ex fid"

text \<open>
  The comprehension \<^verbatim>\<open>[task.result() for task in tasks.values()]\<close>: the futures are read
  in the order of the dictionary, and the first one that raises ends the comprehension.
\<close>

fun results :: "'b executor \<Rightarrow> nat list \<Rightarrow> (error + string list) option" where
  "results ex [] = Some (Inr [])"
| "results ex (task # rest) =
     (case result ex task of
        None \<Rightarrow> None
      | Some (Inl e) \<Rightarrow> Some (Inl e)
      | Some (Inr text) \<Rightarrow>
          (case results ex rest of
             None \<Rightarrow> None
           | Some (Inl e) \<Rightarrow> Some (Inl e)
           | Some (Inr texts) \<Rightarrow> Some (Inr (text # texts))))"

subsection \<open>process_file\<close>

text \<open>The body of the loop over \<^verbatim>\<open>enumerate(st.session_state.images)\<close>.\<close>

definition submit_page ::
  "string \<Rightarrow> (nat \<times> nat) list \<times> 'b executor \<Rightarrow> nat \<times> 'b \<Rightarrow> (nat \<times> nat) list \<times> 'b executor" where
  "submit_page prompt acc page =
     (let image_parts = [\<lparr>mime_type = ''image/png'', data = snd page\<rparr>];
          (future, ex) = submit (snd acc) prompt image_parts
      in (dict_set (fst acc) (fst page) future, ex))"

text \<open>
  Lines 64 to 70: the dictionary \<^verbatim>\<open>tasks\<close> and the pool as they are when the \<^verbatim>\<open>with\<close> block
  is left, after the workers ran in the order \<open>schedule\<close>.
\<close>

definition dispatch ::
  "'b generative_model \<Rightarrow> nat list \<Rightarrow> string \<Rightarrow> 'b list \<Rightarrow> (nat \<times> nat) list \<times> 'b executor" where
  "dispatch model schedule prompt pages =
     (let (tasks, ex) =
            foldl (submit_page prompt) ([], ThreadPoolExecutor max_workers) (enumerate 0 pages)
      in (tasks, shutdown model (run_workers model schedule ex)))"

text \<open>
  A call of \<^verbatim>\<open>process_file\<close> returns, or raises and leaves the session state as it was
  when the exception was raised.
\<close>

datatype 'b outcome = Raised error "'b session_state" | Returned "'b session_state"

definition process_file ::
  "'b generative_model \<Rightarrow> pandoc \<Rightarrow> nat list \<Rightarrow> 'b session_state \<Rightarrow> 'b outcome option" where
  "process_file model convert_text schedule st =
     (let st1 = st\<lparr>format_selected :=
                   (if plain_text_convert st then ''Plain Text''
                    else if markdown_convert st then ''Markdown''
                    else ''LaTeX'')\<rparr>;
          (tasks, ex) =
            dispatch model schedule (get_custom_prompt (format_selected st1)) (images st1)
      in case results ex (map snd tasks) of
           None \<Rightarrow> None
         | Some (Inl e) \<Rightarrow> Some (Raised e st1)
         | Some (Inr texts) \<Rightarrow>
             (let st2 = st1\<lparr>output := join [newline, newline] texts\<rparr>
              in if format_selected st2 = ''LaTeX'' then
                   (case md_to_latex convert_text (output st2) of
                      Inl e \<Rightarrow> Some (Raised e st2)
                    | Inr latex \<Rightarrow> Some (Returned (st2\<lparr>output := latex\<rparr>)))
                 else Some (Returned st2)))"

subsection \<open>generate_character_frequency\<close>

text \<open>The body of the loop over the characters of the text.\<close>

definition count_char :: "(char \<times> int) list \<Rightarrow> char \<Rightarrow> (char \<times> int) list" where
  "count_char frequency c =
     (if isalnum c then dict_set frequency c (dict_get frequency c 0 + 1) else frequency)"

text \<open>
  \<^verbatim>\<open>df.sort_values(by='Frequency', ascending=False)\<close> computes from the column
  \<^verbatim>\<open>Frequency\<close> alone a list of row positions and returns the rows in that order. The
  function that computes the positions, \<open>indexer\<close>, is the library's; the sorting
  algorithm is the default one (\<^verbatim>\<open>kind='quicksort'\<close>), which the library documents as
  not stable.
\<close>

type_synonym indexer = "int list \<Rightarrow> nat list"

definition sort_values :: "indexer \<Rightarrow> (char \<times> int) list \<Rightarrow> (char \<times> int) list" where
  "sort_values indexer df = map (\<lambda>i. df ! i) (indexer (map snd df))"

definition generate_character_frequency :: "indexer \<Rightarrow> string \<Rightarrow> (char \<times> int) list" where
  "generate_character_frequency indexer text =
     (let frequency = foldl count_char [] text;
          df = frequency
      in sort_values indexer df)"

text \<open>
  What the library promises of the positions: they are a permutation of the row
  positions, and the keys read in that order are descending.
\<close>

definition sorts_descending :: "indexer \<Rightarrow> bool" where
  "sorts_descending indexer =
     (\<forall>keys. mset (indexer keys) = mset [0..<length keys] \<and>
             sorted_wrt (\<lambda>a b. b \<le> a) (map (\<lambda>i. keys ! i) (indexer keys)))"

text \<open>
  Two functions that keep the promise: a stable descending sort of the positions, and
  the reverse of a stable ascending sort, which puts rows of equal key in the reverse
  of their original order.
\<close>

definition stable_indexer :: indexer where
  "stable_indexer keys = sort_key (\<lambda>i. - (keys ! i)) [0..<length keys]"


subsection \<open>The script after the upload\<close>

text \<open>The arguments \<^verbatim>\<open>file_name\<close> and \<^verbatim>\<open>mime\<close> of \<^verbatim>\<open>st.download_button\<close>.\<close>

definition download_file_name :: "'b session_state \<Rightarrow> string" where
  "download_file_name st =
     (if format_selected st = ''Plain Text'' then ''converted_notes.txt''
      else if format_selected st = ''Markdown'' then ''converted_notes.md''
      else ''converted_notes.tex'')"

definition download_mime :: "'b session_state \<Rightarrow> string" where
  "download_mime st =
     (if format_selected st = ''Plain Text'' then ''text/plain''
      else if format_selected st = ''Markdown'' then ''text/markdown''
      else ''application/x-tex'')"

text \<open>What one run of the script shows below the upload widgets.\<close>

record page =
  text_area :: string
  freq_data :: "(char \<times> int) list option"
  file_name :: string
  mime :: string
  download_data :: string

text \<open>
  Lines 205 to 227. An exception that leaves \<^verbatim>\<open>process_file\<close> is not caught, so it ends
  the run of the script: nothing below the call is evaluated.
\<close>

definition script ::
  "'b generative_model \<Rightarrow> pandoc \<Rightarrow> indexer \<Rightarrow> nat list \<Rightarrow> 'b session_state \<Rightarrow>
     (error \<times> 'b session_state + page \<times> 'b session_state) option" where
  "script model convert_text indexer schedule st =
     (case (if (plain_text_convert st \<or> markdown_convert st \<or> latex_convert st) \<and> images st \<noteq> []
            then process_file model convert_text schedule st
            else Some (Returned st)) of
        None \<Rightarrow> None
      | Some (Raised e st') \<Rightarrow> Some (Inl (e, st'))
      | Some (Returned st') \<Rightarrow>
          Some (Inr (\<lparr>text_area = output st',
                      freq_data = (if output st' \<noteq> []
                                   then Some (generate_character_frequency indexer (output st'))
                                   else None),
                      file_name = download_file_name st',
                      mime = download_mime st',
                      download_data = output st'\<rparr>, st')))"

subsection \<open>Notions of the specification\<close>





text \<open>
  The outcome of the call that \<^verbatim>\<open>process_file\<close> submits for one page: the transcription
  of the page, or the error the service raised for it.
\<close>

definition transcription :: "'b generative_model \<Rightarrow> string \<Rightarrow> 'b \<Rightarrow> error + string" where
  "transcription model prompt image_data =
     get_gemini_response model prompt [\<lparr>mime_type = ''image/png'', data = image_data\<rparr>]"

text \<open>The format a run selects from the two buttons.\<close>

definition selection :: "'b session_state \<Rightarrow> string" where
  "selection st =
     (if plain_text_convert st then ''Plain Text''
      else if markdown_convert st then ''Markdown''
      else ''LaTeX'')"

text \<open>
  Fail-fast collection of a sequence of per-page outcomes: the first error in the order
  of the sequence, or all the texts in that order.
\<close>

fun collect :: "(error + 'a) list \<Rightarrow> error + 'a list" where
  "collect [] = Inr []"
| "collect (Inl e # rest) = Inl e"
| "collect (Inr x # rest) = (case collect rest of Inl e \<Rightarrow> Inl e | Inr xs \<Rightarrow> Inr (x # xs))"

fun first_error :: "(error + 'a) list \<Rightarrow> error option" where
  "first_error [] = None"
| "first_error (Inl e # rest) = Some e"
| "first_error (Inr x # rest) = first_error rest"

text \<open>
  The texts in order, a blank line before every text but the first.
\<close>

fun blank_line_separated :: "string list \<Rightarrow> string" where
  "blank_line_separated [] = []"
| "blank_line_separated (t # ts) = t @ concat (map (\<lambda>u. [newline, newline] @ u) ts)"

text \<open>
  The distinct elements of a list in the order of their first occurrence, and the
  frequency table in that order: every distinct alphanumeric character of the text with
  the number of its occurrences.
\<close>

fun first_occ :: "'a list \<Rightarrow> 'a list" where
  "first_occ [] = []"
| "first_occ (x # xs) = x # first_occ (filter (\<lambda>y. y \<noteq> x) xs)"

definition counted :: "string \<Rightarrow> (char \<times> int) list" where
  "counted cs = map (\<lambda>c. (c, int (count_list cs c))) (first_occ (filter isalnum cs))"

subsection \<open>Notions of the proofs\<close>

text \<open>
  The outcome a future has once it is done: that of its queued item if it is still
  queued, the stored one otherwise.
\<close>

definition eventual :: "'b generative_model \<Rightarrow> 'b executor \<Rightarrow> nat \<Rightarrow> (error + string) option" where
  "eventual model ex fid =
     (case find (\<lambda>w. future_id w = fid) (work_queue ex) of
        Some w \<Rightarrow> Some (get_gemini_response model (prompt_arg w) (image_arg w))
      | None \<Rightarrow> finished ex fid)"

definition png_part :: "'b \<Rightarrow> 'b image_part" where
  "png_part image_data = \<lparr>mime_type = ''image/png'', data = image_data\<rparr>"

definition queued :: "string \<Rightarrow> nat \<times> 'b \<Rightarrow> 'b work_item" where
  "queued prompt page =
     \<lparr>future_id = fst page, prompt_arg = prompt, image_arg = [png_part (snd page)]\<rparr>"

subsection \<open>Example inputs\<close>

text \<open>
  A service that rejects one page and answers every other one, a markup transform that
  always succeeds, and a session with three pages and the plain text button pressed.
\<close>

definition example_model :: "string generative_model" where
  "example_model prompt part =
     (if data part = ''smudged'' then Inl (TranscriptionError ''unreadable'')
      else Inr (''notes of '' @ data part))"

definition example_pandoc :: pandoc where
  "example_pandoc source target fmt = Inr (''body of '' @ source)"

definition example_state :: "string session_state" where
  "example_state =
     \<lparr>plain_text_convert = True, markdown_convert = False, latex_convert = False,
      images = [''p0'', ''p1'', ''p2''], output = ''old'', format_selected = []\<rparr>"

section \<open>Properties\<close>

subsection \<open>The thread pool finishes every future with the outcome of its own call\<close>

lemma find_filter_other:
  "a \<noteq> b \<Longrightarrow> find (\<lambda>w. f w = a) (filter (\<lambda>w. f w \<noteq> b) ws) = find (\<lambda>w. f w = a) ws"
  by (induction ws) auto

lemma find_filter_same: "find (\<lambda>w. f w = a) (filter (\<lambda>w. f w \<noteq> a) ws) = None"
  by (induction ws) auto

lemma work_queue_complete:
  "work_queue (complete model ex fid) = filter (\<lambda>w. future_id w \<noteq> fid) (work_queue ex)"
proof (cases "find (\<lambda>w. future_id w = fid) (work_queue ex)")
  case None
  then have "\<forall>w \<in> set (work_queue ex). future_id w \<noteq> fid"
    by (simp add: find_None_iff)
  then have "filter (\<lambda>w. future_id w \<noteq> fid) (work_queue ex) = work_queue ex"
    by (simp add: filter_id_conv)
  with None show ?thesis by (simp add: complete_def)
next
  case (Some w)
  then show ?thesis by (simp add: complete_def)
qed

lemma eventual_complete: "eventual model (complete model ex fid) k = eventual model ex k"
proof (cases "find (\<lambda>w. future_id w = fid) (work_queue ex)")
  case None
  then show ?thesis by (simp add: complete_def)
next
  case (Some w)
  show ?thesis
  proof (cases "k = fid")
    case True
    with Some show ?thesis
      by (simp add: eventual_def complete_def find_filter_same)
  next
    case False
    with Some show ?thesis
      by (simp add: eventual_def complete_def find_filter_other split: option.split)
  qed
qed

lemma eventual_run_workers:
  "eventual model (run_workers model schedule ex) k = eventual model ex k"
  unfolding run_workers_def
  by (induction schedule arbitrary: ex) (simp_all add: eventual_complete)

lemma work_queue_run_workers:
  "work_queue (run_workers model schedule ex) =
     filter (\<lambda>w. future_id w \<notin> set schedule) (work_queue ex)"
  unfolding run_workers_def
proof (induction schedule arbitrary: ex)
  case Nil
  show ?case by simp
next
  case (Cons fid schedule)
  show ?case
    by (simp add: Cons.IH work_queue_complete conj_commute)
qed

lemma work_queue_shutdown: "work_queue (shutdown model ex) = []"
  by (simp add: shutdown_def work_queue_run_workers filter_empty_conv)

lemma result_shutdown: "result (shutdown model ex) k = eventual model ex k"
proof -
  have "eventual model (shutdown model ex) k = eventual model ex k"
    by (simp add: shutdown_def eventual_run_workers)
  moreover have "eventual model (shutdown model ex) k = finished (shutdown model ex) k"
    by (simp add: eventual_def work_queue_shutdown)
  ultimately show ?thesis by (simp add: result_def)
qed

lemma result_after_pool:
  "result (shutdown model (run_workers model schedule ex)) k = eventual model ex k"
  by (simp add: result_shutdown eventual_run_workers)

subsection \<open>The submission loop\<close>

lemma dict_set_fresh: "k \<notin> fst ` set kvs \<Longrightarrow> dict_set kvs k v = kvs @ [(k, v)]"
  by (induction kvs) auto

lemma submit_page_next:
  "submit_page prompt
     (map (\<lambda>i. (i, i)) [0..<m],
      \<lparr>pool_size = n, submitted = m, work_queue = q, finished = fin\<rparr>) (m, p) =
   (map (\<lambda>i. (i, i)) [0..<Suc m],
    \<lparr>pool_size = n, submitted = Suc m, work_queue = q @ [queued prompt (m, p)],
     finished = fin\<rparr>)"
proof -
  have "m \<notin> fst ` set (map (\<lambda>i. (i, i)) [0..<m])"
    by (simp add: image_iff)
  then have "dict_set (map (\<lambda>i. (i, i)) [0..<m]) m m = map (\<lambda>i. (i, i)) [0..<m] @ [(m, m)]"
    by (rule dict_set_fresh)
  then show ?thesis
    by (simp add: submit_page_def submit_def queued_def png_part_def)
qed

lemma submit_all:
  "foldl (submit_page prompt) ([], ThreadPoolExecutor n) (enumerate 0 pages) =
     (map (\<lambda>i. (i, i)) [0..<length pages],
      \<lparr>pool_size = n, submitted = length pages,
       work_queue = map (queued prompt) (enumerate 0 pages), finished = Map.empty\<rparr>)"
proof (induction pages rule: rev_induct)
  case Nil
  show ?case by (simp add: ThreadPoolExecutor_def)
next
  case (snoc p pages)
  show ?case
    by (simp add: enumerate_append_eq snoc.IH submit_page_next)
qed

lemma find_queued:
  "find (\<lambda>w. future_id w = k) (map (queued prompt) (enumerate m pages)) =
     (if m \<le> k \<and> k < m + length pages
      then Some (queued prompt (k, pages ! (k - m))) else None)"
proof (induction pages arbitrary: m)
  case Nil
  show ?case by simp
next
  case (Cons p pages)
  show ?case
  proof (cases "k = m")
    case True
    then show ?thesis by (simp add: queued_def)
  next
    case False
    have "future_id (queued prompt (m, p)) \<noteq> k"
      using False by (simp add: queued_def)
    moreover have "m \<le> k \<and> k < m + length (p # pages) \<longleftrightarrow>
        Suc m \<le> k \<and> k < Suc m + length pages"
      using False by auto
    moreover have "Suc m \<le> k \<Longrightarrow> (p # pages) ! (k - m) = pages ! (k - Suc m)"
      by (simp add: Suc_diff_le)
    ultimately show ?thesis
      by (simp add: Cons.IH)
  qed
qed

lemma transcription_png: "transcription model prompt p = model prompt (png_part p)"
  by (simp add: transcription_def get_gemini_response_def png_part_def)

lemma fst_dispatch:
  "fst (dispatch model schedule prompt pages) = map (\<lambda>i. (i, i)) [0..<length pages]"
  by (simp add: dispatch_def submit_all)

lemma result_dispatch:
  "result (snd (dispatch model schedule prompt pages)) k =
     (if k < length pages then Some (transcription model prompt (pages ! k)) else None)"
  by (simp add: dispatch_def submit_all result_after_pool eventual_def find_queued
      queued_def get_gemini_response_def transcription_png)

lemma outcomes_dispatch:
  "map (result (snd (dispatch model schedule prompt pages)))
     (map snd (fst (dispatch model schedule prompt pages))) =
   map (\<lambda>p. Some (transcription model prompt p)) pages"
proof -
  have "map (result (snd (dispatch model schedule prompt pages)))
          (map snd (fst (dispatch model schedule prompt pages))) =
        map (\<lambda>k. Some (transcription model prompt (pages ! k))) [0..<length pages]"
    by (simp add: fst_dispatch result_dispatch comp_def)
  also have "\<dots> =
      map (\<lambda>p. Some (transcription model prompt p)) (map ((!) pages) [0..<length pages])"
    by (simp add: comp_def)
  finally show ?thesis
    by (simp add: map_nth)
qed

subsection \<open>Reading the futures\<close>

lemma results_collect:
  "map (result ex) fs = map Some os \<Longrightarrow> results ex fs = Some (collect os)"
proof (induction fs arbitrary: os)
  case Nil
  then show ?case by simp
next
  case (Cons f fs)
  then obtain o' os' where os: "os = o' # os'"
    by (cases os) auto
  with Cons.prems have hd: "result ex f = Some o'" and tl: "map (result ex) fs = map Some os'"
    by simp_all
  from Cons.IH [OF tl] hd os show ?case
    by (cases o') (simp_all split: sum.split)
qed

lemma results_dispatch:
  "results (snd (dispatch model schedule prompt pages))
     (map snd (fst (dispatch model schedule prompt pages))) =
   Some (collect (map (transcription model prompt) pages))"
proof (rule results_collect)
  show "map (result (snd (dispatch model schedule prompt pages)))
          (map snd (fst (dispatch model schedule prompt pages))) =
        map Some (map (transcription model prompt) pages)"
    unfolding outcomes_dispatch by (simp add: comp_def)
qed

lemma collect_all_Inr: "collect (map Inr xs) = Inr xs"
  by (induction xs) simp_all

lemma collect_Inr_D: "collect os = Inr xs \<Longrightarrow> os = map Inr xs"
proof (induction os arbitrary: xs)
  case Nil
  then show ?case by simp
next
  case (Cons a os)
  then show ?case
    by (cases a) (auto split: sum.splits)
qed

lemma collect_first_error: "first_error os = Some e \<Longrightarrow> collect os = Inl e"
proof (induction os)
  case Nil
  then show ?case by simp
next
  case (Cons a os)
  then show ?case
    by (cases a) simp_all
qed

lemma first_error_iff: "(\<exists>e. first_error os = Some e) = (\<exists>e. Inl e \<in> set os)"
proof (induction os)
  case Nil
  show ?case by simp
next
  case (Cons a os)
  then show ?case
    by (cases a) auto
qed

lemma process_file_collect:
  "process_file model convert_text schedule st =
     (case collect (map (transcription model (get_custom_prompt (selection st))) (images st)) of
        Inl e \<Rightarrow> Some (Raised e (st\<lparr>format_selected := selection st\<rparr>))
      | Inr texts \<Rightarrow>
          (if selection st = ''LaTeX'' then
             (case md_to_latex convert_text (join [newline, newline] texts) of
                Inl e \<Rightarrow> Some (Raised e (st\<lparr>format_selected := selection st,
                                           output := join [newline, newline] texts\<rparr>))
              | Inr latex \<Rightarrow> Some (Returned (st\<lparr>format_selected := selection st,
                                                output := latex\<rparr>)))
           else Some (Returned (st\<lparr>format_selected := selection st,
                                   output := join [newline, newline] texts\<rparr>))))"
  by (simp add: process_file_def Let_def case_prod_beta results_dispatch
      selection_def split: sum.split)

subsection \<open>Dispatch\<close>

text \<open>
  Claim C1. For every sequence of pages and every order in which the workers finish
  (every list of future ids is a schedule, so every permutation of the pages is one),
  the futures read in the order of \<^verbatim>\<open>tasks.values()\<close> hold the transcriptions of the pages
  in page order: entry \<open>i\<close> is the outcome of the call for page \<open>i\<close>. The comprehension
  therefore returns the texts in page order when every page succeeded, whichever call
  finished first.
\<close>

theorem dispatch_in_page_order:
  "map (result (snd (dispatch model schedule prompt pages)))
     (map snd (fst (dispatch model schedule prompt pages))) =
     map (\<lambda>p. Some (transcription model prompt p)) pages \<and>
   results (snd (dispatch model schedule prompt pages))
     (map snd (fst (dispatch model schedule prompt pages))) =
     Some (collect (map (transcription model prompt) pages)) \<and>
   (map (transcription model prompt) pages = map Inr texts \<longrightarrow>
      results (snd (dispatch model schedule prompt pages))
        (map snd (fst (dispatch model schedule prompt pages))) = Some (Inr texts))"
proof (intro conjI impI)
  show "map (result (snd (dispatch model schedule prompt pages)))
     (map snd (fst (dispatch model schedule prompt pages))) =
     map (\<lambda>p. Some (transcription model prompt p)) pages"
    by (rule outcomes_dispatch)
  show "results (snd (dispatch model schedule prompt pages))
     (map snd (fst (dispatch model schedule prompt pages))) =
     Some (collect (map (transcription model prompt) pages))"
    by (rule results_dispatch)
  assume "map (transcription model prompt) pages = map Inr texts"
  then show "results (snd (dispatch model schedule prompt pages))
        (map snd (fst (dispatch model schedule prompt pages))) = Some (Inr texts)"
    by (simp only: results_dispatch collect_all_Inr)
qed

theorem dispatch_in_page_order_witness:
  "map (transcription example_model ''p'') [''p0'', ''p1'', ''p2''] =
     map Inr [''notes of p0'', ''notes of p1'', ''notes of p2''] \<and>
   results (snd (dispatch example_model [2, 0, 1] ''p'' [''p0'', ''p1'', ''p2'']))
     (map snd (fst (dispatch example_model [2, 0, 1] ''p'' [''p0'', ''p1'', ''p2'']))) =
     Some (Inr [''notes of p0'', ''notes of p1'', ''notes of p2''])"
proof -
  have "map (transcription example_model ''p'') [''p0'', ''p1'', ''p2''] =
     map Inr [''notes of p0'', ''notes of p1'', ''notes of p2'']"
    by (simp add: transcription_def get_gemini_response_def example_model_def)
  with dispatch_in_page_order [of example_model "[2, 0, 1]" "''p''" "[''p0'', ''p1'', ''p2'']"
      "[''notes of p0'', ''notes of p1'', ''notes of p2'']"]
  show ?thesis by blast
qed

text \<open>
  Claim C5. In every run whose pages all succeed, the results paired with the keys of
  \<^verbatim>\<open>tasks\<close> carry exactly the indices \<open>0\<close> to \<open>pageCount - 1\<close>, in ascending order and
  each once, for every order in which the workers finish.
\<close>

theorem result_indices:
  assumes "results (snd (dispatch model schedule prompt pages))
             (map snd (fst (dispatch model schedule prompt pages))) = Some (Inr texts)"
  shows "map fst (zip (map fst (fst (dispatch model schedule prompt pages))) texts) =
           [0..<length pages] \<and>
         distinct (map fst (zip (map fst (fst (dispatch model schedule prompt pages))) texts)) \<and>
         set (map fst (zip (map fst (fst (dispatch model schedule prompt pages))) texts)) =
           {0..<length pages}"
proof -
  from assms have "collect (map (transcription model prompt) pages) = Inr texts"
    by (simp add: results_dispatch)
  then have "map (transcription model prompt) pages = map Inr texts"
    by (rule collect_Inr_D)
  then have "length pages = length texts"
    by (rule map_eq_imp_length_eq)
  moreover have "map fst (fst (dispatch model schedule prompt pages)) = [0..<length pages]"
    by (simp add: fst_dispatch comp_def)
  ultimately have
    "map fst (zip (map fst (fst (dispatch model schedule prompt pages))) texts) =
       [0..<length pages]"
    by simp
  then show ?thesis by simp
qed

theorem result_indices_witness:
  "results (snd (dispatch example_model [1, 2, 0] ''p'' [''p0'', ''p1'', ''p2'']))
     (map snd (fst (dispatch example_model [1, 2, 0] ''p'' [''p0'', ''p1'', ''p2'']))) =
     Some (Inr [''notes of p0'', ''notes of p1'', ''notes of p2'']) \<and>
   map fst (zip (map fst (fst (dispatch example_model [1, 2, 0] ''p'' [''p0'', ''p1'', ''p2''])))
     [''notes of p0'', ''notes of p1'', ''notes of p2'']) = [0, 1, 2]"
proof -
  have run: "results (snd (dispatch example_model [1, 2, 0] ''p'' [''p0'', ''p1'', ''p2'']))
     (map snd (fst (dispatch example_model [1, 2, 0] ''p'' [''p0'', ''p1'', ''p2'']))) =
     Some (Inr [''notes of p0'', ''notes of p1'', ''notes of p2''])"
    by code_simp
  have "[0..<length [''p0'', ''p1'', ''p2'']] = [0, 1, 2]"
    by code_simp
  with run result_indices [OF run] show ?thesis
    by simp
qed

subsection \<open>Fail-fast\<close>

text \<open>
  Claim C2. When some page's transcription raises, let \<open>e\<close> be the first error in page
  order. Then \<^verbatim>\<open>process_file\<close> raises \<open>e\<close>, for every order in which the workers finish
  and every markup transform; the session state it leaves has the format selection of
  the run and the output it had before, so no aggregated text and no converted text is
  stored. The script, when it calls \<^verbatim>\<open>process_file\<close>, ends with \<open>e\<close> before the
  frequency table and the download button are evaluated.
\<close>

theorem first_error_fails_run:
  assumes "first_error (map (transcription model (get_custom_prompt (selection st)))
             (images st)) = Some e"
  shows "process_file model convert_text schedule st =
           Some (Raised e (st\<lparr>format_selected := selection st\<rparr>)) \<and>
         output (st\<lparr>format_selected := selection st\<rparr>) = output st \<and>
         (plain_text_convert st \<or> markdown_convert st \<or> latex_convert st \<longrightarrow>
            script model convert_text indexer schedule st =
              Some (Inl (e, st\<lparr>format_selected := selection st\<rparr>)))"
proof -
  from assms have
    "collect (map (transcription model (get_custom_prompt (selection st))) (images st)) = Inl e"
    by (rule collect_first_error)
  then have run: "process_file model convert_text schedule st =
           Some (Raised e (st\<lparr>format_selected := selection st\<rparr>))"
    by (simp add: process_file_collect)
  moreover have "images st \<noteq> []"
    using assms by auto
  ultimately show ?thesis
    by (simp add: script_def)
qed

theorem first_error_fails_run_witness:
  "first_error (map (transcription example_model
       (get_custom_prompt (selection (example_state\<lparr>images := [''p0'', ''smudged'', ''p2'']\<rparr>))))
     (images (example_state\<lparr>images := [''p0'', ''smudged'', ''p2'']\<rparr>))) =
     Some (TranscriptionError ''unreadable'') \<and>
   process_file example_model example_pandoc [2, 0, 1]
     (example_state\<lparr>images := [''p0'', ''smudged'', ''p2'']\<rparr>) =
     Some (Raised (TranscriptionError ''unreadable'')
       (example_state\<lparr>images := [''p0'', ''smudged'', ''p2''],
                       format_selected := ''Plain Text''\<rparr>)) \<and>
   script example_model example_pandoc stable_indexer [2, 0, 1]
     (example_state\<lparr>images := [''p0'', ''smudged'', ''p2'']\<rparr>) =
     Some (Inl (TranscriptionError ''unreadable'',
       example_state\<lparr>images := [''p0'', ''smudged'', ''p2''],
                      format_selected := ''Plain Text''\<rparr>))"
proof -
  let ?st = "example_state\<lparr>images := [''p0'', ''smudged'', ''p2'']\<rparr>"
  have sel: "selection ?st = ''Plain Text''"
    by (simp add: selection_def example_state_def)
  have err: "first_error (map (transcription example_model (get_custom_prompt (selection ?st)))
     (images ?st)) = Some (TranscriptionError ''unreadable'')"
    by (simp add: transcription_def get_gemini_response_def example_model_def)
  have button: "plain_text_convert ?st"
    by (simp add: example_state_def)
  from first_error_fails_run [OF err, of example_pandoc "[2, 0, 1]" stable_indexer] err sel button
  show ?thesis by simp
qed

subsection \<open>Aggregation and conversion\<close>

text \<open>
  Claim C3. The aggregation \<^verbatim>\<open>"\n\n".join(...)\<close> of any sequence of page texts is the
  texts in order with a blank line between consecutive ones; for the empty sequence it
  is the empty string.
\<close>

theorem join_blank_lines:
  "join [newline, newline] [] = [] \<and>
   join [newline, newline] texts = blank_line_separated texts"
proof -
  have "join [newline, newline] (t # ts) = blank_line_separated (t # ts)" for t ts
    by (induction ts arbitrary: t) simp_all
  then show ?thesis
    by (cases texts) simp_all
qed

text \<open>
  Claim C7. When the plain text button or the markdown button is pressed and every page
  succeeds, \<^verbatim>\<open>process_file\<close> stores the aggregated text as it is: the markup transform
  has no part in the output.
\<close>

theorem plain_and_markdown_unchanged:
  assumes "plain_text_convert st \<or> markdown_convert st"
    and "map (transcription model (get_custom_prompt (selection st))) (images st) =
           map Inr texts"
  shows "process_file model convert_text schedule st =
           Some (Returned (st\<lparr>format_selected := selection st,
                              output := join [newline, newline] texts\<rparr>))"
proof -
  from assms(1) have "selection st \<noteq> ''LaTeX''"
    by (auto simp add: selection_def)
  with assms(2) show ?thesis
    by (simp add: process_file_collect collect_all_Inr)
qed

theorem plain_and_markdown_unchanged_witness:
  "(plain_text_convert example_state \<or> markdown_convert example_state) \<and>
   process_file example_model example_pandoc [2, 0, 1] example_state =
     Some (Returned (example_state\<lparr>format_selected := ''Plain Text'',
       output := ''notes of p0'' @ [newline, newline] @ ''notes of p1'' @
                 [newline, newline] @ ''notes of p2''\<rparr>))"
proof -
  have sel: "selection example_state = ''Plain Text''"
    by (simp add: selection_def example_state_def)
  have button: "plain_text_convert example_state \<or> markdown_convert example_state"
    by (simp add: example_state_def)
  have pages: "map (transcription example_model (get_custom_prompt (selection example_state)))
      (images example_state) = map Inr [''notes of p0'', ''notes of p1'', ''notes of p2'']"
    by (simp add: transcription_def get_gemini_response_def example_model_def example_state_def)
  from plain_and_markdown_unchanged [OF button pages, of example_pandoc "[2, 0, 1]"] sel button
  show ?thesis by simp
qed



subsection \<open>The frequency table\<close>

lemma isalnum_ascii:
  "of_char c < (128::nat) \<Longrightarrow>
     isalnum c = (in_range 0x30 0x39 c \<or> in_range 0x41 0x5A c \<or> in_range 0x61 0x7A c)"
  by (auto simp add: isalnum_def isalpha_def isdecimal_def isdigit_def isnumeric_def in_range_def)

lemma set_first_occ: "set (first_occ xs) = set xs"
  by (induction xs rule: first_occ.induct) auto

lemma distinct_first_occ: "distinct (first_occ xs)"
  by (induction xs rule: first_occ.induct) (auto simp add: set_first_occ)

lemma first_occ_snoc:
  "first_occ (xs @ [c]) = (if c \<in> set xs then first_occ xs else first_occ xs @ [c])"
  by (induction xs rule: first_occ.induct) auto

lemma dict_get_table:
  "dict_get (map (\<lambda>k. (k, f k)) ks) c d = (if c \<in> set ks then f c else d)"
  by (induction ks) auto

lemma dict_set_table_mem:
  "distinct ks \<Longrightarrow> c \<in> set ks \<Longrightarrow>
     dict_set (map (\<lambda>k. (k, f k)) ks) c v = map (\<lambda>k. (k, if k = c then v else f k)) ks"
  by (induction ks) auto

lemma dict_set_table_fresh:
  "c \<notin> set ks \<Longrightarrow>
     dict_set (map (\<lambda>k. (k, f k)) ks) c v = map (\<lambda>k. (k, f k)) ks @ [(c, v)]"
  by (rule dict_set_fresh) (simp add: image_iff)

lemma counted_snoc_other:
  assumes "\<not> isalnum c"
  shows "counted (cs @ [c]) = counted cs"
proof -
  have "k \<in> set (first_occ (filter isalnum cs)) \<Longrightarrow> k \<noteq> c" for k
    using assms by (auto simp add: set_first_occ)
  then show ?thesis
    using assms by (auto simp add: counted_def)
qed

lemma counted_snoc_seen:
  assumes "isalnum c" and "c \<in> set cs"
  shows "counted (cs @ [c]) =
     map (\<lambda>k. (k, if k = c then int (count_list cs c) + 1 else int (count_list cs k)))
       (first_occ (filter isalnum cs))"
  using assms by (simp add: counted_def first_occ_snoc)

lemma counted_snoc_new:
  assumes "isalnum c" and "c \<notin> set cs"
  shows "counted (cs @ [c]) = counted cs @ [(c, 1)]"
proof -
  have "k \<in> set (first_occ (filter isalnum cs)) \<Longrightarrow> k \<noteq> c" for k
    using assms by (auto simp add: set_first_occ)
  then show ?thesis
    using assms by (auto simp add: counted_def first_occ_snoc)
qed

lemma count_char_counted: "count_char (counted cs) c = counted (cs @ [c])"
proof (cases "isalnum c")
  case False
  then show ?thesis
    by (simp add: count_char_def counted_snoc_other)
next
  case True
  show ?thesis
  proof (cases "c \<in> set cs")
    case seen: True
    with True have mem: "c \<in> set (first_occ (filter isalnum cs))"
      by (simp add: set_first_occ)
    have "count_char (counted cs) c =
        dict_set (counted cs) c (int (count_list cs c) + 1)"
      using True mem by (simp add: count_char_def counted_def dict_get_table)
    also have "\<dots> = map (\<lambda>k. (k, if k = c then int (count_list cs c) + 1
                                    else int (count_list cs k)))
                       (first_occ (filter isalnum cs))"
      unfolding counted_def using distinct_first_occ mem by (rule dict_set_table_mem)
    finally show ?thesis
      using True seen by (simp add: counted_snoc_seen)
  next
    case new: False
    with True have fresh: "c \<notin> set (first_occ (filter isalnum cs))"
      by (simp add: set_first_occ)
    have "count_char (counted cs) c = dict_set (counted cs) c 1"
      using True fresh new by (simp add: count_char_def counted_def dict_get_table)
    also have "\<dots> = counted cs @ [(c, 1)]"
      unfolding counted_def using fresh by (rule dict_set_table_fresh)
    finally show ?thesis
      using True new by (simp add: counted_snoc_new)
  qed
qed

lemma foldl_count_char: "foldl count_char [] cs = counted cs"
proof (induction cs rule: rev_induct)
  case Nil
  show ?case by (simp add: counted_def)
next
  case (snoc c cs)
  then show ?case by (simp add: count_char_counted)
qed

lemma mset_sort_values:
  assumes "sorts_descending indexer"
  shows "mset (sort_values indexer df) = mset df"
proof -
  have "mset (indexer (map snd df)) = mset [0..<length df]"
    using assms by (simp add: sorts_descending_def)
  then have "image_mset ((!) df) (mset (indexer (map snd df))) =
             image_mset ((!) df) (mset [0..<length df])"
    by simp
  then have "mset (map ((!) df) (indexer (map snd df))) = mset (map ((!) df) [0..<length df])"
    by simp
  then show ?thesis
    by (simp add: sort_values_def map_nth)
qed


lemma stable_indexer_sorts: "sorts_descending stable_indexer"
proof -
  have "sorted_wrt (\<lambda>a b. b \<le> a) (map (\<lambda>i. keys ! i) (stable_indexer keys))" for keys :: "int list"
  proof -
    have "sorted (map (\<lambda>i. - (keys ! i)) (stable_indexer keys))"
      unfolding stable_indexer_def by (rule sorted_sort_key)
    then show ?thesis
      by (simp add: sorted_map sorted_wrt_map)
  qed
  then show ?thesis
    by (simp add: sorts_descending_def stable_indexer_def)
qed







lemma sum_dict_set_incr:
  "sum_list (map snd (dict_set kvs c (dict_get kvs c 0 + 1))) =
     sum_list (map snd kvs) + (1::int)"
  by (induction kvs) auto

lemma sum_count_char:
  "sum_list (map snd (count_char kvs c)) = sum_list (map snd kvs) + (if isalnum c then 1 else 0)"
  by (simp add: count_char_def sum_dict_set_incr)

lemma sum_foldl_count_char:
  "sum_list (map snd (foldl count_char acc cs)) =
     sum_list (map snd acc) + int (length (filter isalnum cs))"
  by (induction cs arbitrary: acc) (simp_all add: sum_count_char)

lemma sum_counted: "sum_list (map snd (counted cs)) = int (length (filter isalnum cs))"
  using sum_foldl_count_char [of "[]" cs] by (simp add: foldl_count_char)

lemma mset_frequency:
  "sorts_descending indexer \<Longrightarrow>
     mset (generate_character_frequency indexer cs) = mset (counted cs)"
  by (simp add: generate_character_frequency_def foldl_count_char mset_sort_values)


lemma keys_counted: "map fst (counted cs) = first_occ (filter isalnum cs)"
  by (simp add: counted_def comp_def)

lemma set_counted:
  "set (counted cs) = (\<lambda>c. (c, int (count_list cs c))) ` {c \<in> set cs. isalnum c}"
  by (auto simp add: counted_def set_first_occ)




text \<open>
  Claim C10. Whatever permutation the library's descending sort computes, the table
  returned for a text has every distinct alphanumeric character of the text exactly once
  as a key, with the number of its occurrences as its count; every count is positive;
  the counts add up to the number of alphanumeric characters of the text; and the table
  is empty exactly when the text has no alphanumeric character.
\<close>

theorem frequency_table_invariants:
  assumes "sorts_descending indexer"
  shows "distinct (map fst (generate_character_frequency indexer cs)) \<and>
         set (map fst (generate_character_frequency indexer cs)) = set (filter isalnum cs) \<and>
         map_of (generate_character_frequency indexer cs) c =
           (if c \<in> set cs \<and> isalnum c then Some (int (count_list cs c)) else None) \<and>
         list_all (\<lambda>r. 0 < snd r) (generate_character_frequency indexer cs) \<and>
         sum_list (map snd (generate_character_frequency indexer cs)) =
           int (length (filter isalnum cs)) \<and>
         ((generate_character_frequency indexer cs = []) = (filter isalnum cs = []))"
proof -
  let ?T = "generate_character_frequency indexer cs"
  have perm: "mset ?T = mset (counted cs)"
    using assms by (rule mset_frequency)
  have set_T: "set ?T = set (counted cs)"
    using perm by (rule mset_eq_setD)
  have "mset (map fst ?T) = mset (map fst (counted cs))"
    using perm by (metis mset_map)
  then have "distinct (map fst ?T) = distinct (map fst (counted cs))"
    by (rule mset_eq_imp_distinct_iff)
  then have dist: "distinct (map fst ?T)"
    by (simp add: keys_counted distinct_first_occ)
  have keys: "set (map fst ?T) = set (filter isalnum cs)"
    using set_T by (simp add: set_counted image_image)
  have look: "map_of ?T c =
           (if c \<in> set cs \<and> isalnum c then Some (int (count_list cs c)) else None)"
  proof (cases "c \<in> set cs \<and> isalnum c")
    case True
    then have "(c, int (count_list cs c)) \<in> set ?T"
      by (simp add: set_T set_counted)
    with dist True show ?thesis
      by simp
  next
    case False
    then have "c \<notin> fst ` set ?T"
      using keys by auto
    then have "map_of ?T c = None"
      by (simp add: map_of_eq_None_iff)
    with False show ?thesis
      by auto
  qed
  have "k \<in> set cs \<Longrightarrow> 0 < count_list cs k" for k
    using count_list_0_iff [of cs k] by simp
  then have pos: "list_all (\<lambda>r. 0 < snd r) ?T"
    by (auto simp add: list_all_iff set_T set_counted)
  have "sum_list (map snd ?T) = sum_mset (image_mset snd (mset ?T))"
    by (metis mset_map sum_mset_sum_list)
  also have "\<dots> = sum_list (map snd (counted cs))"
    by (metis perm mset_map sum_mset_sum_list)
  finally have total: "sum_list (map snd ?T) = int (length (filter isalnum cs))"
    by (simp add: sum_counted)
  have "(?T = []) = (counted cs = [])"
    using perm by (metis mset_zero_iff)
  also have "\<dots> = (filter isalnum cs = [])"
    by (cases "filter isalnum cs") (simp_all add: counted_def)
  finally have empty: "(?T = []) = (filter isalnum cs = [])" .
  from dist keys look pos total empty show ?thesis
    by blast
qed

theorem frequency_table_invariants_witness:
  "sorts_descending stable_indexer \<and>
   distinct (map fst (generate_character_frequency stable_indexer ''b, a!A b1'')) \<and>
   set (map fst (generate_character_frequency stable_indexer ''b, a!A b1'')) = set ''baAb1'' \<and>
   map_of (generate_character_frequency stable_indexer ''b, a!A b1'') (CHR ''b'') = Some 2 \<and>
   map_of (generate_character_frequency stable_indexer ''b, a!A b1'') (CHR '','') = None \<and>
   sum_list (map snd (generate_character_frequency stable_indexer ''b, a!A b1'')) = 5 \<and>
   generate_character_frequency stable_indexer '' ,!'' = []"
proof -
  have alnum: "filter isalnum ''b, a!A b1'' = ''baAb1''" "filter isalnum '' ,!'' = []"
    "isalnum CHR ''b''" "\<not> isalnum CHR '',''"
    by code_simp+
  from frequency_table_invariants [OF stable_indexer_sorts, of "''b, a!A b1''" "CHR ''b''"]
    frequency_table_invariants [OF stable_indexer_sorts, of "''b, a!A b1''" "CHR '',''"]
    frequency_table_invariants [OF stable_indexer_sorts, of "'' ,!''"]
    stable_indexer_sorts alnum
  show ?thesis by simp
qed




subsection \<open>Download hints\<close>


end
